theory Spec2Isabelle
  imports Main
begin

section \<open>Data model of the client feature controller\<close>

text \<open>
  The controller under study is \<^verbatim>\<open>FeatureController\<close> (client API): the handlers
  \<^verbatim>\<open>getAll\<close> and \<^verbatim>\<open>getFeatureToggle\<close>, the query normaliser
  \<^verbatim>\<open>resolveQuery\<close>/\<^verbatim>\<open>prepQuery\<close>, the validator builder
  \<^verbatim>\<open>calculateMeta\<close> and the resolver \<^verbatim>\<open>featuresAndSegments\<close>.

  Asynchronous functions are modelled by their result once awaited: a rejected promise
  or a \<^verbatim>\<open>throw\<close> is the left injection of a sum, a fulfilled promise the right one.
\<close>

datatype error = ValidationError | NotFoundError string | UpstreamError

text \<open>
  A raw query-string parameter as the request carries it: missing, one string, or a
  list of strings (a repeated parameter).
\<close>

datatype param = Absent | Str string | Arr "string list"

text \<open>
  \<^verbatim>\<open>IFeatureToggleQuery\<close>. The source uses this one interface for the raw request
  query, for the object handed to schema validation and for the normalised descriptor;
  the types of three of its fields differ between these stages, so they are parameters
  of the record. An optional field that is missing or \<^verbatim>\<open>undefined\<close> is \<open>None\<close>.
\<close>

record ('t, 'p, 'i) iFeatureToggleQuery =
  tag :: 't
  project :: 'p
  namePrefix :: "string option"
  environment :: "string option"
  inlineSegmentConstraints :: 'i

type_synonym clientQuery = "(param, param, unit) iFeatureToggleQuery"
type_synonym rawQuery = "(param, param, bool) iFeatureToggleQuery"
type_synonym validatedQuery =
  "(string list option, string list option, bool option) iFeatureToggleQuery"
type_synonym featureQuery =
  "(string list list option, string list option, bool option) iFeatureToggleQuery"

text \<open>\<^verbatim>\<open>QueryOverride\<close>: the two fields the caller's identity may force.\<close>

record queryOverride =
  overrideProject :: "string list option"
  overrideEnvironment :: "string option"

text \<open>
  \<^verbatim>\<open>req.user\<close>: an \<^verbatim>\<open>ApiUser\<close> with its \<^verbatim>\<open>projects\<close> and its
  \<^verbatim>\<open>environment\<close>, or anything that is not an instance of \<^verbatim>\<open>ApiUser\<close>.
\<close>

datatype requestUser = ApiUser "string list" string | OtherUser

record params =
  featureName :: string

record request =
  user :: requestUser
  query :: clientQuery
  headers :: "string \<rightharpoonup> string"
  params :: params

text \<open>\<^verbatim>\<open>IMeta\<close>.\<close>

record meta =
  revisionId :: int
  etag :: string
  queryHash :: string

text \<open>
  \<^verbatim>\<open>FeatureConfigurationClient\<close>: only the field \<^verbatim>\<open>name\<close> is read by the
  controller; the other fields live in the record's extension.
\<close>

record featureConfigurationClient =
  name :: string

text \<open>
  The JSON documents the controller sends: the list payload (version, features, query,
  optional segments, meta) and the single feature.
\<close>

datatype ('f, 's) payload =
  ClientFeaturesSchema nat "'f list" featureQuery "'s list option" meta
| ClientFeatureSchema 'f

text \<open>The response object \<^verbatim>\<open>res\<close> as the handlers mutate it.\<close>

record ('f, 's) response =
  statusCode :: nat
  resHeaders :: "string \<rightharpoonup> string"
  body :: "('f, 's) payload option"
  ended :: bool

text \<open>
  Imported pure functions and constants whose code is outside the controller: they are
  parameters of the model. \<^verbatim>\<open>hashSum\<close> is the fingerprint function,
  \<^verbatim>\<open>isAllProjects\<close> and \<^verbatim>\<open>ALL\<close> (here \<open>ALL_sentinel\<close>, the source's
  name being reserved syntax) recognise the all-projects and all-environments
  sentinels, \<^verbatim>\<open>requestSupportsSpec\<close> is the capability check.
\<close>

record deps =
  hashSum :: "featureQuery \<Rightarrow> string"
  isAllProjects :: "string list \<Rightarrow> bool"
  ALL_sentinel :: string
  requestSupportsSpec :: "request \<Rightarrow> string \<Rightarrow> bool"

text \<open>
  The stateful collaborators, by what each returns when it is called now: the feature
  store, the segment service and the revision service.
\<close>

record ('f, 's) services =
  getClientFeatures :: "featureQuery \<Rightarrow> error + 'f list"
  getActive :: "error + 's list"
  getMaxRevisionId :: "error + int"

record clientFeatureCaching =
  enabled :: bool
  maxAge :: nat

text \<open>
  The controller's mutable state: the memoisation cache (key, time of insertion and
  value) and, as an observation of the collaborators, the list of calls made to them.
\<close>

datatype storeCall = GetMaxRevisionId | GetClientFeatures featureQuery | GetActive

record ('f, 's) state =
  cache :: "string \<rightharpoonup> nat \<times> 'f list \<times> 's list"
  calls :: "storeCall list"

section \<open>Strings\<close>

text \<open>
  The template literal renders the revision number in decimal. Revision numbers are
  integer counters; JavaScript prints an integer below \<open>10\<^sup>2\<^sup>1\<close> as its decimal digits,
  with a leading minus sign when negative.
\<close>

definition digit :: "nat \<Rightarrow> char" where
  "digit d = ''0123456789'' ! d"

fun string_of_nat :: "nat \<Rightarrow> string" where
  "string_of_nat n =
     (if n < 10 then [digit n] else string_of_nat (n div 10) @ [digit (n mod 10)])"

declare string_of_nat.simps [simp del]

definition string_of_int :: "int \<Rightarrow> string" where
  "string_of_int i =
     (if i < 0 then CHR ''-'' # string_of_nat (nat (- i)) else string_of_nat (nat i))"

text \<open>\<^verbatim>\<open>String.prototype.split\<close> with a one-character separator.\<close>

fun split :: "char \<Rightarrow> string \<Rightarrow> string list" where
  "split sep [] = [[]]"
| "split sep (c # cs) =
     (if c = sep then [] # split sep cs
      else (case split sep cs of [] \<Rightarrow> [[c]] | w # ws \<Rightarrow> (c # w) # ws))"

section \<open>Query normalisation\<close>

text \<open>JavaScript truthiness of a raw parameter and of an optional string.\<close>

fun truthy :: "param \<Rightarrow> bool" where
  "truthy Absent = False"
| "truthy (Str s) = (s \<noteq> [])"
| "truthy (Arr xs) = True"

fun truthyString :: "string option \<Rightarrow> bool" where
  "truthyString None = False"
| "truthyString (Some s) = (s \<noteq> [])"

definition paramToArray :: "param \<Rightarrow> param" where
  "paramToArray param =
     (if \<not> truthy param then param
      else (case param of Arr xs \<Rightarrow> param | Str s \<Rightarrow> Arr [s] | Absent \<Rightarrow> param))"

text \<open>
  Modelled from the spec: \<^verbatim>\<open>querySchema.validateAsync\<close>, whose schema is declared
  in another module. The specification says that tag filters have the form
  \<^verbatim>\<open>type:value\<close>, that a tag filter without the separator fails validation, and
  that invalid input is rejected and never silently corrected: a value that passes
  is returned as it was given. A list-valued filter that is not a list is rejected.
\<close>

definition validateList :: "(string \<Rightarrow> bool) \<Rightarrow> param \<Rightarrow> error + string list option" where
  "validateList ok p =
     (case p of
        Absent \<Rightarrow> Inr None
      | Str s \<Rightarrow> Inl ValidationError
      | Arr xs \<Rightarrow> if list_all ok xs then Inr (Some xs) else Inl ValidationError)"

text \<open>
  Modelled from the spec: the schema itself. Tags must hold the separator, project
  names are not constrained, and the other fields pass as they are.
\<close>

definition querySchema_validateAsync :: "rawQuery \<Rightarrow> error + validatedQuery" where
  "querySchema_validateAsync raw =
     (case validateList (\<lambda>t. CHR '':'' \<in> set t) (tag raw) of
        Inl e \<Rightarrow> Inl e
      | Inr t \<Rightarrow>
          (case validateList (\<lambda>p. True) (project raw) of
             Inl e \<Rightarrow> Inl e
           | Inr p \<Rightarrow>
               Inr \<lparr>tag = t, project = p, namePrefix = namePrefix raw,
                    environment = environment raw,
                    inlineSegmentConstraints = Some (inlineSegmentConstraints raw)\<rparr>))"

text \<open>The object literal \<^verbatim>\<open>{}\<close> that \<^verbatim>\<open>prepQuery\<close> returns early.\<close>

definition emptyQuery :: featureQuery where
  "emptyQuery =
     \<lparr>tag = None, project = None, namePrefix = None, environment = None,
      inlineSegmentConstraints = None\<rparr>"

definition prepQuery :: "rawQuery \<Rightarrow> error + featureQuery" where
  "prepQuery raw =
     (if \<not> truthy (tag raw) \<and> \<not> truthy (project raw) \<and> \<not> truthyString (namePrefix raw)
         \<and> \<not> truthyString (environment raw) \<and> \<not> inlineSegmentConstraints raw
      then Inr emptyQuery
      else
        (let tagQuery = paramToArray (tag raw);
             projectQuery = paramToArray (project raw)
         in case querySchema_validateAsync
                   \<lparr>tag = tagQuery, project = projectQuery, namePrefix = namePrefix raw,
                    environment = environment raw,
                    inlineSegmentConstraints = inlineSegmentConstraints raw\<rparr> of
              Inl e \<Rightarrow> Inl e
            | Inr q \<Rightarrow>
                Inr \<lparr>tag = map_option (map (split CHR '':'')) (tag q),
                     project = project q, namePrefix = namePrefix q,
                     environment = environment q,
                     inlineSegmentConstraints = inlineSegmentConstraints q\<rparr>))"

text \<open>
  \<^verbatim>\<open>resolveQuery\<close>: the override is built from the caller's identity and spread
  over the client's query after it, so a field the override holds replaces the
  client's; the computed \<^verbatim>\<open>inlineSegmentConstraints\<close> comes last.
\<close>

definition resolveQuery :: "deps \<Rightarrow> request \<Rightarrow> error + featureQuery" where
  "resolveQuery d req =
     (let override =
            (case user req of
               ApiUser projects env \<Rightarrow>
                 \<lparr>overrideProject =
                    (if \<not> isAllProjects d projects then Some projects else None),
                  overrideEnvironment = (if env \<noteq> ALL_sentinel d then Some env else None)\<rparr>
             | OtherUser \<Rightarrow> \<lparr>overrideProject = None, overrideEnvironment = None\<rparr>);
          inlineSegments = \<not> requestSupportsSpec d req ''segments''
      in prepQuery
           \<lparr>tag = tag (query req),
            project = (case overrideProject override of
                         Some ps \<Rightarrow> Arr ps | None \<Rightarrow> project (query req)),
            namePrefix = namePrefix (query req),
            environment = (case overrideEnvironment override of
                             Some e \<Rightarrow> Some e | None \<Rightarrow> environment (query req)),
            inlineSegmentConstraints = inlineSegments\<rparr>)"

section \<open>Validator\<close>

text \<open>
  \<^verbatim>\<open>calculateMeta\<close>: one read of the revision service, the fingerprint of the
  descriptor, and the template \<^verbatim>\<open>`"${queryHash}:${revisionId}"`\<close>.
\<close>

definition etagOf :: "string \<Rightarrow> int \<Rightarrow> string" where
  "etagOf h r = CHR 0x22 # h @ CHR '':'' # string_of_int r @ [CHR 0x22]"

definition calculateMeta ::
  "deps \<Rightarrow> ('f, 's) services \<Rightarrow> featureQuery \<Rightarrow> ('f, 's) state
     \<Rightarrow> (error + meta) \<times> ('f, 's) state" where
  "calculateMeta d svc q st =
     (let st1 = st\<lparr>calls := calls st @ [GetMaxRevisionId]\<rparr>
      in case getMaxRevisionId svc of
           Inl e \<Rightarrow> (Inl e, st1)
         | Inr r \<Rightarrow>
             (Inr \<lparr>revisionId = r, etag = etagOf (hashSum d q) r, queryHash = hashSum d q\<rparr>,
              st1))"

section \<open>Resolver\<close>

text \<open>
  \<^verbatim>\<open>resolveFeaturesAndSegments\<close>: both elements of the array given to
  \<^verbatim>\<open>Promise.all\<close> are evaluated, so both calls are made whatever the other returns;
  the result is the pair when both are fulfilled. When both are rejected JavaScript
  reports the rejection that settles first; the model reports the feature store's, and
  no statement below depends on which of the two it is.
\<close>

definition resolveFeaturesAndSegments ::
  "('f, 's) services \<Rightarrow> featureQuery \<Rightarrow> ('f, 's) state
     \<Rightarrow> (error + 'f list \<times> 's list) \<times> ('f, 's) state" where
  "resolveFeaturesAndSegments svc q st =
     (let st1 = st\<lparr>calls := calls st @ [GetClientFeatures q, GetActive]\<rparr>
      in (case getClientFeatures svc q of
            Inl e \<Rightarrow> Inl e
          | Inr fs \<Rightarrow> (case getActive svc of Inl e \<Rightarrow> Inl e | Inr ss \<Rightarrow> Inr (fs, ss)),
          st1))"

text \<open>
  Modelled from the spec: \<^verbatim>\<open>memoizee\<close>, a package outside the repository, called
  with the options \<^verbatim>\<open>promise: true\<close>, \<^verbatim>\<open>maxAge\<close> and \<^verbatim>\<open>normalizer\<close>.
  The specification describes a cache entry as the last computed result with its
  insertion time, expiring after the configured time-to-live, expiry being the only
  eviction; a caller that finds an unexpired entry gets it without the store being
  called, a caller after expiry starts a new resolution, and a failed resolution
  leaves no entry behind. The key of an entry is what the \<^verbatim>\<open>normalizer\<close> option
  returns for the call's arguments. \<open>now\<close> is the time of the call in milliseconds;
  calls are taken one after the other, each completing before the next.
\<close>

definition memoizeeMiss ::
  "('a \<Rightarrow> ('f, 's) state \<Rightarrow> (error + 'f list \<times> 's list) \<times> ('f, 's) state)
     \<Rightarrow> string \<Rightarrow> nat \<Rightarrow> 'a \<Rightarrow> ('f, 's) state
     \<Rightarrow> (error + 'f list \<times> 's list) \<times> ('f, 's) state" where
  "memoizeeMiss fn key now args st =
     (case fn args st of
        (Inl e, st1) \<Rightarrow> (Inl e, st1\<lparr>cache := (cache st1)(key := None)\<rparr>)
      | (Inr v, st1) \<Rightarrow> (Inr v, st1\<lparr>cache := (cache st1)(key \<mapsto> (now, v))\<rparr>))"

text \<open>
  Modelled from the spec: the memoised function. An unexpired entry under the call's
  key is returned; otherwise the call is a miss.
\<close>

definition memoizee ::
  "('a \<Rightarrow> ('f, 's) state \<Rightarrow> (error + 'f list \<times> 's list) \<times> ('f, 's) state)
     \<Rightarrow> nat \<Rightarrow> ('a \<Rightarrow> string) \<Rightarrow> nat \<Rightarrow> 'a \<Rightarrow> ('f, 's) state
     \<Rightarrow> (error + 'f list \<times> 's list) \<times> ('f, 's) state" where
  "memoizee fn age normalizer now args st =
     (let key = normalizer args
      in case cache st key of
           None \<Rightarrow> memoizeeMiss fn key now args st
         | Some (t, v) \<Rightarrow>
             if now < t + age then (Inr v, st) else memoizeeMiss fn key now args st)"

text \<open>
  The constructor's choice: with caching enabled the resolver is the memoised function
  whose normaliser returns \<^verbatim>\<open>args[1]\<close>, the second argument; otherwise it is
  \<^verbatim>\<open>resolveFeaturesAndSegments\<close> itself, which ignores the second argument.
\<close>

definition featuresAndSegments ::
  "clientFeatureCaching \<Rightarrow> ('f, 's) services \<Rightarrow> nat \<Rightarrow> featureQuery \<times> string
     \<Rightarrow> ('f, 's) state \<Rightarrow> (error + 'f list \<times> 's list) \<times> ('f, 's) state" where
  "featuresAndSegments cfg svc now =
     (if enabled cfg
      then memoizee (\<lambda>(q, e). resolveFeaturesAndSegments svc q) (maxAge cfg) snd now
      else (\<lambda>(q, e). resolveFeaturesAndSegments svc q))"

section \<open>Handlers\<close>

definition setHeader :: "string \<Rightarrow> string \<Rightarrow> ('f, 's) response \<Rightarrow> ('f, 's) response" where
  "setHeader k v res = res\<lparr>resHeaders := (resHeaders res)(k \<mapsto> v)\<rparr>"

text \<open>
  Modelled from the spec: \<^verbatim>\<open>openApiService.respondWithValidation\<close>, defined in
  another module. The specification gives the response of the list endpoint as the
  status and the full payload; the model writes the status and the document and
  finishes the response.
\<close>

definition respondWithValidation ::
  "nat \<Rightarrow> ('f, 's) response \<Rightarrow> ('f, 's) payload \<Rightarrow> ('f, 's) response" where
  "respondWithValidation st res data = res\<lparr>statusCode := st, body := Some data, ended := True\<rparr>"

definition version :: nat where
  "version = 2"

text \<open>
  A handler returns whether it threw, the response object as it left it, and the
  state. \<open>now\<close> is the time at which the request is served.
\<close>

definition getAll ::
  "deps \<Rightarrow> clientFeatureCaching \<Rightarrow> ('f, 's) services \<Rightarrow> nat \<Rightarrow> request
     \<Rightarrow> ('f, 's) response \<Rightarrow> ('f, 's) state
     \<Rightarrow> (error + unit) \<times> ('f, 's) response \<times> ('f, 's) state" where
  "getAll d cfg svc now req res st =
     (case resolveQuery d req of
        Inl e \<Rightarrow> (Inl e, res, st)
      | Inr q \<Rightarrow>
          (let userVersion = headers req ''if-none-match''
           in case calculateMeta d svc q st of
                (Inl e, st1) \<Rightarrow> (Inl e, res, st1)
              | (Inr m, st1) \<Rightarrow>
                  (let res1 = setHeader ''ETag'' (etag m) res
                   in if Some (etag m) = userVersion
                      then (Inr (), res1\<lparr>statusCode := 304, ended := True\<rparr>, st1)
                      else
                        (case featuresAndSegments cfg svc now (q, etag m) st1 of
                           (Inl e, st2) \<Rightarrow> (Inl e, res1, st2)
                         | (Inr (features, segments), st2) \<Rightarrow>
                             (if requestSupportsSpec d req ''segments''
                              then (Inr (),
                                    respondWithValidation 200 res1
                                      (ClientFeaturesSchema version features q
                                         (Some segments) m),
                                    st2)
                              else (Inr (),
                                    respondWithValidation 200 res1
                                      (ClientFeaturesSchema version features q None m),
                                    st2))))))"

definition getFeatureToggle ::
  "deps \<Rightarrow> ('x featureConfigurationClient_scheme, 's) services \<Rightarrow> request
     \<Rightarrow> ('x featureConfigurationClient_scheme, 's) response
     \<Rightarrow> ('x featureConfigurationClient_scheme, 's) state
     \<Rightarrow> (error + unit) \<times> ('x featureConfigurationClient_scheme, 's) response
         \<times> ('x featureConfigurationClient_scheme, 's) state" where
  "getFeatureToggle d svc req res st =
     (let n = featureName (params req)
      in case resolveQuery d req of
           Inl e \<Rightarrow> (Inl e, res, st)
         | Inr featureQuery \<Rightarrow>
             (let q = featureQuery\<lparr>namePrefix := Some n\<rparr>;
                  st1 = st\<lparr>calls := calls st @ [GetClientFeatures q]\<rparr>
              in case getClientFeatures svc q of
                   Inl e \<Rightarrow> (Inl e, res, st1)
                 | Inr toggles \<Rightarrow>
                     (case find (\<lambda>t. name t = n) toggles of
                        None \<Rightarrow>
                          (Inl (NotFoundError (''Could not find feature toggle '' @ n)),
                           res, st1)
                      | Some toggle \<Rightarrow>
                          (Inr (),
                           respondWithValidation 200 res (ClientFeatureSchema toggle),
                           st1))))"

section \<open>Resolver calls that overlap in time\<close>

text \<open>
  An asynchronous call has two moments: its start, up to the first point where it
  waits, and the settlement of the promise it returned. The definitions above take a
  call at both moments at once; the ones below keep them apart, so that several calls
  can be started before any is settled. A promise is pending (with the query its store
  calls were issued for), fulfilled (with the time and the value) or rejected.
\<close>

datatype ('f, 's) promise =
  Pending featureQuery | Fulfilled nat "'f list \<times> 's list" | Rejected error

text \<open>
  The state between the two moments: the memoisation cache (key and promise), the
  promises by their number, the next free number, and the store calls issued so far.
\<close>

record ('f, 's) pendingState =
  promiseCache :: "string \<rightharpoonup> nat"
  promises :: "nat \<rightharpoonup> ('f, 's) promise"
  nextPromise :: nat
  issued :: "storeCall list"

text \<open>
  \<^verbatim>\<open>Promise.all\<close> of two results: the pair when both are fulfilled. As in
  \<open>resolveFeaturesAndSegments\<close>, the first rejection in array order is reported.
\<close>

definition promiseAll :: "error + 'a \<Rightarrow> error + 'b \<Rightarrow> error + 'a \<times> 'b" where
  "promiseAll a b =
     (case a of Inl e \<Rightarrow> Inl e | Inr x \<Rightarrow> (case b of Inl e \<Rightarrow> Inl e | Inr y \<Rightarrow> Inr (x, y)))"

text \<open>
  The start of \<^verbatim>\<open>resolveFeaturesAndSegments\<close>: both store calls are issued while
  the array given to \<^verbatim>\<open>Promise.all\<close> is built, and a new pending promise is
  returned.
\<close>

definition startResolveFeaturesAndSegments ::
  "featureQuery \<Rightarrow> ('f, 's) pendingState \<Rightarrow> nat \<times> ('f, 's) pendingState" where
  "startResolveFeaturesAndSegments q st =
     (let p = nextPromise st
      in (p, st\<lparr>promises := (promises st)(p \<mapsto> Pending q),
                nextPromise := p + 1,
                issued := issued st @ [GetClientFeatures q, GetActive]\<rparr>))"

text \<open>
  Modelled from the spec: \<^verbatim>\<open>memoizee\<close> with \<^verbatim>\<open>promise: true\<close>, for calls that
  overlap. The specification says that when requests for one key arrive while no
  cached entry exists, or the entry has expired, only one resolution is performed and
  all concurrent callers receive its result once it completes; that a caller arriving
  after the entry is populated and before it expires gets the cached result; and that
  a failed resolution leaves no entry. So the promise is stored under the key when the
  call starts. An entry is live while its promise is pending, and for the time-to-live
  after it was fulfilled.
\<close>

fun entryLive :: "nat \<Rightarrow> nat \<Rightarrow> ('f, 's) promise \<Rightarrow> bool" where
  "entryLive age now (Pending q) = True"
| "entryLive age now (Fulfilled t v) = (now < t + age)"
| "entryLive age now (Rejected e) = False"

text \<open>Modelled from the spec: the promise of the live entry under a key, if any.\<close>

definition liveEntry ::
  "nat \<Rightarrow> nat \<Rightarrow> ('f, 's) pendingState \<Rightarrow> string \<Rightarrow> nat option" where
  "liveEntry age now st key =
     (case promiseCache st key of
        None \<Rightarrow> None
      | Some p \<Rightarrow>
          (case promises st p of
             None \<Rightarrow> None
           | Some x \<Rightarrow> if entryLive age now x then Some p else None))"

text \<open>
  Modelled from the spec: the start of a call of the memoised function. A live entry's
  promise is returned as it is; otherwise the function is started and its promise
  stored under the key.
\<close>

definition memoizeeStart ::
  "('a \<Rightarrow> ('f, 's) pendingState \<Rightarrow> nat \<times> ('f, 's) pendingState)
     \<Rightarrow> nat \<Rightarrow> ('a \<Rightarrow> string) \<Rightarrow> nat \<Rightarrow> 'a \<Rightarrow> ('f, 's) pendingState
     \<Rightarrow> nat \<times> ('f, 's) pendingState" where
  "memoizeeStart fn age normalizer now args st =
     (let key = normalizer args
      in case liveEntry age now st key of
           Some p \<Rightarrow> (p, st)
         | None \<Rightarrow>
             (case fn args st of
                (p, st1) \<Rightarrow> (p, st1\<lparr>promiseCache := (promiseCache st1)(key \<mapsto> p)\<rparr>)))"

text \<open>
  The start of a call of \<^verbatim>\<open>featuresAndSegments\<close>, by the constructor's choice:
  the memoised function keyed on \<^verbatim>\<open>args[1]\<close>, or the resolver itself.
\<close>

definition startFeaturesAndSegments ::
  "clientFeatureCaching \<Rightarrow> nat \<Rightarrow> featureQuery \<times> string \<Rightarrow> ('f, 's) pendingState
     \<Rightarrow> nat \<times> ('f, 's) pendingState" where
  "startFeaturesAndSegments cfg now =
     (if enabled cfg
      then memoizeeStart (\<lambda>(q, e). startResolveFeaturesAndSegments q) (maxAge cfg) snd now
      else (\<lambda>(q, e). startResolveFeaturesAndSegments q))"

text \<open>
  Modelled from the spec: the settlement of a pending promise at time \<open>now\<close>, with
  what the stores return for its calls. A fulfilled promise keeps its entry from then
  on for the time-to-live; a rejected one loses every entry that holds it.
\<close>

definition settle ::
  "('f, 's) services \<Rightarrow> nat \<Rightarrow> nat \<Rightarrow> ('f, 's) pendingState \<Rightarrow> ('f, 's) pendingState" where
  "settle svc now p st =
     (case promises st p of
        Some (Pending q) \<Rightarrow>
          (case promiseAll (getClientFeatures svc q) (getActive svc) of
             Inl e \<Rightarrow>
               st\<lparr>promises := (promises st)(p \<mapsto> Rejected e),
                  promiseCache :=
                    (\<lambda>k. if promiseCache st k = Some p then None else promiseCache st k)\<rparr>
           | Inr v \<Rightarrow> st\<lparr>promises := (promises st)(p \<mapsto> Fulfilled now v)\<rparr>)
      | _ \<Rightarrow> st)"

text \<open>
  Calls with one key started one after the other, at the given times and with the
  given queries, none of them settled in between; the promises the callers hold are
  returned in the order of the calls.
\<close>

fun startAll ::
  "clientFeatureCaching \<Rightarrow> (nat \<times> featureQuery) list \<Rightarrow> string \<Rightarrow> ('f, 's) pendingState
     \<Rightarrow> nat list \<times> ('f, 's) pendingState" where
  "startAll cfg [] key st = ([], st)"
| "startAll cfg ((now, q) # cs) key st =
     (case startFeaturesAndSegments cfg now (q, key) st of
        (p, st1) \<Rightarrow> (case startAll cfg cs key st1 of (ps, st2) \<Rightarrow> (p # ps, st2)))"

section \<open>Example inputs\<close>

text \<open>
  Concrete collaborators and requests on which the statements below are evaluated.
  The example fingerprint function maps every descriptor to the same string, the
  capability check reads the \<^verbatim>\<open>unleash-client-spec\<close> header, and the example
  stores return the features of the given names, one segment and the given revision.
\<close>

definition exampleDeps :: deps where
  "exampleDeps =
     \<lparr>hashSum = (\<lambda>q. ''5d41402a''),
      isAllProjects = (\<lambda>ps. ps = [''*'']),
      ALL_sentinel = ''*'',
      requestSupportsSpec = (\<lambda>req spec. headers req ''unleash-client-spec'' \<noteq> None)\<rparr>"

definition exampleFeature :: "string \<Rightarrow> featureConfigurationClient" where
  "exampleFeature n = \<lparr>name = n\<rparr>"

definition exampleServices ::
  "string list \<Rightarrow> int \<Rightarrow> (featureConfigurationClient, string) services" where
  "exampleServices names r =
     \<lparr>getClientFeatures = (\<lambda>q. Inr (map exampleFeature names)),
      getActive = Inr [''segment''],
      getMaxRevisionId = Inr r\<rparr>"

definition failingServices :: "(featureConfigurationClient, string) services" where
  "failingServices =
     \<lparr>getClientFeatures = (\<lambda>q. Inr [exampleFeature ''a'']),
      getActive = Inl UpstreamError,
      getMaxRevisionId = Inr 1\<rparr>"

definition exampleCaching :: clientFeatureCaching where
  "exampleCaching = \<lparr>enabled = True, maxAge = 1000\<rparr>"

definition emptyState :: "(featureConfigurationClient, string) state" where
  "emptyState = \<lparr>cache = Map.empty, calls = []\<rparr>"

definition freshResponse :: "(featureConfigurationClient, string) response" where
  "freshResponse = \<lparr>statusCode = 200, resHeaders = Map.empty, body = None, ended = False\<rparr>"

definition noFilters :: clientQuery where
  "noFilters =
     \<lparr>tag = Absent, project = Absent, namePrefix = None, environment = None,
      inlineSegmentConstraints = ()\<rparr>"

definition exampleRequest ::
  "requestUser \<Rightarrow> clientQuery \<Rightarrow> (string \<rightharpoonup> string) \<Rightarrow> string \<Rightarrow> request" where
  "exampleRequest u q hs n = \<lparr>user = u, query = q, headers = hs, params = \<lparr>featureName = n\<rparr>\<rparr>"

text \<open>
  Two resolver calls one millisecond apart, for the same query and fingerprint: the
  first at revision 1 while the store holds the feature \<^verbatim>\<open>old\<close>, the second at
  revision \<open>r\<close> while the store holds the feature \<^verbatim>\<open>new\<close>.
\<close>

definition firstCall ::
  "(error + featureConfigurationClient list \<times> string list)
     \<times> (featureConfigurationClient, string) state" where
  "firstCall =
     featuresAndSegments exampleCaching (exampleServices [''old''] 1) 0
       (emptyQuery, etagOf ''5d41402a'' 1) emptyState"

definition secondCall ::
  "int \<Rightarrow> (error + featureConfigurationClient list \<times> string list)
     \<times> (featureConfigurationClient, string) state" where
  "secondCall r =
     featuresAndSegments exampleCaching (exampleServices [''new''] r) 1
       (emptyQuery, etagOf ''5d41402a'' r) (snd firstCall)"

text \<open>
  A list request without filters from a client that resolves segments itself, with or
  without a conditional validator, and the handler's result for it at revision 1.
\<close>

definition listRequest :: "string option \<Rightarrow> request" where
  "listRequest v =
     exampleRequest OtherUser noFilters
       (case v of
          None \<Rightarrow> [''unleash-client-spec'' \<mapsto> ''4.2.0'']
        | Some x \<Rightarrow> [''unleash-client-spec'' \<mapsto> ''4.2.0'', ''if-none-match'' \<mapsto> x])
       []"

definition listResult ::
  "string option \<Rightarrow> (error + unit) \<times> (featureConfigurationClient, string) response
     \<times> (featureConfigurationClient, string) state" where
  "listResult v =
     getAll exampleDeps exampleCaching (exampleServices [''a''] 1) 5 (listRequest v)
       freshResponse emptyState"

text \<open>
  Two list requests without filters one millisecond apart: the first at revision 1
  while the store holds the feature \<^verbatim>\<open>old\<close>, the second at revision 2 while it
  holds the feature \<^verbatim>\<open>new\<close>, served on the state the first one left.
\<close>

definition firstList ::
  "(error + unit) \<times> (featureConfigurationClient, string) response
     \<times> (featureConfigurationClient, string) state" where
  "firstList =
     getAll exampleDeps exampleCaching (exampleServices [''old''] 1) 0 (listRequest None)
       freshResponse emptyState"

definition secondList ::
  "(error + unit) \<times> (featureConfigurationClient, string) response
     \<times> (featureConfigurationClient, string) state" where
  "secondList =
     getAll exampleDeps exampleCaching (exampleServices [''new''] 2) 1 (listRequest None)
       freshResponse (snd (snd firstList))"

text \<open>
  A request of an API user restricted to the projects A and B and to the environment
  \<^verbatim>\<open>production\<close> that asks for project C and the environment \<^verbatim>\<open>development\<close>;
  a request without filters from a client that does not declare the segments
  capability; and requests for one feature by name, with a client-supplied name prefix.
\<close>

definition restrictedRequest :: request where
  "restrictedRequest =
     exampleRequest (ApiUser [''A'', ''B''] ''production'')
       (noFilters\<lparr>project := Arr [''C''], environment := Some ''development''\<rparr>)
       Map.empty []"

definition legacyRequest :: request where
  "legacyRequest = exampleRequest OtherUser noFilters Map.empty []"

definition toggleRequest :: "string \<Rightarrow> request" where
  "toggleRequest n =
     exampleRequest OtherUser (noFilters\<lparr>namePrefix := Some ''other''\<rparr>)
       [''unleash-client-spec'' \<mapsto> ''4.2.0''] n"

definition toggleResult ::
  "string \<Rightarrow> (error + unit) \<times> (featureConfigurationClient, string) response
     \<times> (featureConfigurationClient, string) state" where
  "toggleResult n =
     getFeatureToggle exampleDeps (exampleServices [''ab'', ''a''] 1) (toggleRequest n)
       freshResponse emptyState"

text \<open>
  Three calls for one key, started at the times 0, 1 and 2 on a controller that has
  served nothing yet.
\<close>

definition emptyPending :: "(featureConfigurationClient, string) pendingState" where
  "emptyPending =
     \<lparr>promiseCache = Map.empty, promises = Map.empty, nextPromise = 0, issued = []\<rparr>"

definition threeCalls ::
  "nat list \<times> (featureConfigurationClient, string) pendingState" where
  "threeCalls =
     startAll exampleCaching [(0, emptyQuery), (1, emptyQuery), (2, emptyQuery)]
       (etagOf ''5d41402a'' 1) emptyPending"

section \<open>Decimal rendering and the validator string\<close>

lemma digit_inj: "a < 10 \<Longrightarrow> b < 10 \<Longrightarrow> digit a = digit b \<Longrightarrow> a = b"
proof -
  assume a: "a < 10" and b: "b < 10" and e: "digit a = digit b"
  have d: "distinct ''0123456789''" by simp
  have l: "length ''0123456789'' = 10" by simp
  from e have "''0123456789'' ! a = ''0123456789'' ! b" by (simp only: digit_def)
  with d a b l show "a = b" by (simp only: nth_eq_iff_index_eq)
qed

lemma digit_in: "d < 10 \<Longrightarrow> digit d \<in> set ''0123456789''"
  unfolding digit_def by (rule nth_mem) simp

lemma string_of_nat_ne: "string_of_nat n \<noteq> []"
  by (subst string_of_nat.simps) simp

lemma string_of_nat_chars: "set (string_of_nat n) \<subseteq> set ''0123456789''"
proof (induction n rule: string_of_nat.induct)
  case (1 n)
  show ?case
  proof (cases "n < 10")
    case True
    then show ?thesis using digit_in[of n] by (subst string_of_nat.simps) simp
  next
    case False
    have "n mod 10 < 10" by simp
    then have "digit (n mod 10) \<in> set ''0123456789''" by (rule digit_in)
    with False 1 show ?thesis by (subst string_of_nat.simps) simp
  qed
qed

lemma string_of_nat_inj: "string_of_nat m = string_of_nat n \<Longrightarrow> m = n"
proof (induction m arbitrary: n rule: string_of_nat.induct)
  case (1 m)
  show ?case
  proof (cases "m < 10")
    case True
    note m = this
    show ?thesis
    proof (cases "n < 10")
      case True
      with m 1(2) show ?thesis
        using digit_inj[of m n]
        by (simp add: string_of_nat.simps[of m] string_of_nat.simps[of n])
    next
      case False
      with m 1(2) have "[digit m] = string_of_nat (n div 10) @ [digit (n mod 10)]"
        by (simp add: string_of_nat.simps[of m] string_of_nat.simps[of n])
      then have "string_of_nat (n div 10) = []" by simp
      then show ?thesis using string_of_nat_ne by blast
    qed
  next
    case False
    note m = this
    show ?thesis
    proof (cases "n < 10")
      case True
      with m 1(2) have "string_of_nat (m div 10) @ [digit (m mod 10)] = [digit n]"
        by (simp add: string_of_nat.simps[of m] string_of_nat.simps[of n])
      then have "string_of_nat (m div 10) = []" by simp
      then show ?thesis using string_of_nat_ne by blast
    next
      case False
      with m 1(2) have
        "string_of_nat (m div 10) @ [digit (m mod 10)]
           = string_of_nat (n div 10) @ [digit (n mod 10)]"
        by (simp add: string_of_nat.simps[of m] string_of_nat.simps[of n])
      then have a: "string_of_nat (m div 10) = string_of_nat (n div 10)"
        and b: "digit (m mod 10) = digit (n mod 10)" by simp_all
      from 1(1)[OF m a] have q: "m div 10 = n div 10" .
      from b have r: "m mod 10 = n mod 10"
        using digit_inj[of "m mod 10" "n mod 10"] by simp
      from q r show ?thesis by (metis div_mult_mod_eq)
    qed
  qed
qed

lemma string_of_nat_no_minus: "hd (string_of_nat n) \<noteq> CHR ''-''"
proof -
  have "hd (string_of_nat n) \<in> set (string_of_nat n)" using string_of_nat_ne by simp
  then have "hd (string_of_nat n) \<in> set ''0123456789''" using string_of_nat_chars by blast
  then show ?thesis by auto
qed

lemma string_of_int_inj: "string_of_int i = string_of_int j \<Longrightarrow> i = j"
proof -
  assume e: "string_of_int i = string_of_int j"
  show "i = j"
  proof (cases "i < 0")
    case True
    note i = this
    show ?thesis
    proof (cases "j < 0")
      case True
      with i e have "string_of_nat (nat (- i)) = string_of_nat (nat (- j))"
        by (simp add: string_of_int_def)
      then have "nat (- i) = nat (- j)" by (rule string_of_nat_inj)
      with i True show ?thesis by simp
    next
      case False
      with i e have "CHR ''-'' # string_of_nat (nat (- i)) = string_of_nat (nat j)"
        by (simp add: string_of_int_def)
      then have "hd (string_of_nat (nat j)) = CHR ''-''" by (metis list.sel(1))
      with string_of_nat_no_minus show ?thesis by blast
    qed
  next
    case False
    note i = this
    show ?thesis
    proof (cases "j < 0")
      case True
      with i e have "CHR ''-'' # string_of_nat (nat (- j)) = string_of_nat (nat i)"
        by (simp add: string_of_int_def)
      then have "hd (string_of_nat (nat i)) = CHR ''-''" by (metis list.sel(1))
      with string_of_nat_no_minus show ?thesis by blast
    next
      case False
      with i e have "string_of_nat (nat i) = string_of_nat (nat j)"
        by (simp add: string_of_int_def)
      then have "nat i = nat j" by (rule string_of_nat_inj)
      with i False show ?thesis by simp
    qed
  qed
qed

lemma string_of_int_no_colon: "CHR '':'' \<notin> set (string_of_int i)"
proof -
  have "\<And>n. CHR '':'' \<notin> set (string_of_nat n)"
    using string_of_nat_chars by fastforce
  then show ?thesis by (simp add: string_of_int_def)
qed

text \<open>A string is cut in one way only at its last separator.\<close>

lemma split_last_sep:
  "c \<notin> set ys \<Longrightarrow> c \<notin> set ys' \<Longrightarrow> xs @ c # ys = xs' @ c # ys' \<Longrightarrow> xs = xs' \<and> ys = ys'"
proof (induction xs arbitrary: xs')
  case Nil
  then show ?case by (cases xs') auto
next
  case (Cons a xs)
  then show ?case by (cases xs') auto
qed

lemma etagOf_inj: "etagOf h r = etagOf h' r' \<longleftrightarrow> h = h' \<and> r = r'"
proof
  assume "etagOf h r = etagOf h' r'"
  then have "h @ CHR '':'' # string_of_int r = h' @ CHR '':'' # string_of_int r'"
    by (simp add: etagOf_def)
  then have "h = h' \<and> string_of_int r = string_of_int r'"
    using split_last_sep[OF string_of_int_no_colon string_of_int_no_colon] by blast
  then show "h = h' \<and> r = r'" using string_of_int_inj by blast
next
  assume "h = h' \<and> r = r'"
  then show "etagOf h r = etagOf h' r'" by simp
qed

lemma string_of_int_digit: "0 \<le> i \<Longrightarrow> i < 10 \<Longrightarrow> string_of_int i = [digit (nat i)]"
proof -
  assume "0 \<le> i" and "i < 10"
  then have "nat i < 10" by simp
  then have "string_of_nat (nat i) = [digit (nat i)]"
    by (subst string_of_nat.simps) simp
  with \<open>0 \<le> i\<close> show ?thesis by (simp add: string_of_int_def)
qed

section \<open>Facts about the resolver and the cache\<close>

lemma calculateMeta_ok:
  "getMaxRevisionId svc = Inr r \<Longrightarrow>
   calculateMeta d svc q st =
     (Inr \<lparr>revisionId = r, etag = etagOf (hashSum d q) r, queryHash = hashSum d q\<rparr>,
      st\<lparr>calls := calls st @ [GetMaxRevisionId]\<rparr>)"
  by (simp add: calculateMeta_def)

lemma resolve_cache: "cache (snd (resolveFeaturesAndSegments svc q st)) = cache st"
  by (simp add: resolveFeaturesAndSegments_def Let_def)

lemma resolve_calls:
  "calls (snd (resolveFeaturesAndSegments svc q st))
     = calls st @ [GetClientFeatures q, GetActive]"
  by (simp add: resolveFeaturesAndSegments_def Let_def)

lemma resolve_result:
  "fst (resolveFeaturesAndSegments svc q st) =
     (case getClientFeatures svc q of
        Inl e \<Rightarrow> Inl e
      | Inr fs \<Rightarrow> (case getActive svc of Inl e \<Rightarrow> Inl e | Inr ss \<Rightarrow> Inr (fs, ss)))"
  by (simp add: resolveFeaturesAndSegments_def Let_def)

lemma firstCall_value:
  "firstCall =
     (Inr ([exampleFeature ''old''], [''segment'']),
      \<lparr>cache = [etagOf ''5d41402a'' 1 \<mapsto> (0, [exampleFeature ''old''], [''segment''])],
       calls = [GetClientFeatures emptyQuery, GetActive]\<rparr>)"
  by (simp add: firstCall_def featuresAndSegments_def memoizee_def memoizeeMiss_def
      exampleCaching_def resolveFeaturesAndSegments_def exampleServices_def emptyState_def)

text \<open>While the promise under a key is pending, every call for that key gets it.\<close>

lemma startAll_pending:
  "enabled cfg \<Longrightarrow> promiseCache st key = Some p \<Longrightarrow> promises st p = Some (Pending q0)
     \<Longrightarrow> startAll cfg cs key st = (replicate (length cs) p, st)"
proof (induction cs)
  case Nil
  then show ?case by simp
next
  case (Cons c cs)
  obtain now q where c: "c = (now, q)" by (cases c)
  from Cons.prems have "startFeaturesAndSegments cfg now (q, key) st = (p, st)"
    by (simp add: startFeaturesAndSegments_def memoizeeStart_def liveEntry_def)
  with Cons c show ?case by simp
qed

section \<open>Facts about normalisation\<close>

lemma prepQuery_project:
  "project raw = Arr ps \<Longrightarrow> prepQuery raw = Inr q \<Longrightarrow> project q = Some ps"
  by (auto simp: prepQuery_def paramToArray_def querySchema_validateAsync_def validateList_def
      Let_def split: sum.splits param.splits if_splits)

lemma prepQuery_tag:
  "tag raw = Arr ts \<Longrightarrow> prepQuery raw = Inr q \<Longrightarrow> tag q = Some (map (split CHR '':'') ts)"
  by (auto simp: prepQuery_def paramToArray_def querySchema_validateAsync_def validateList_def
      Let_def split: sum.splits param.splits if_splits)

lemma prepQuery_environment:
  "environment raw = Some e \<Longrightarrow> e \<noteq> [] \<Longrightarrow> prepQuery raw = Inr q \<Longrightarrow> environment q = Some e"
  by (auto simp: prepQuery_def paramToArray_def querySchema_validateAsync_def validateList_def
      Let_def split: sum.splits param.splits if_splits)

lemma prepQuery_environment_any:
  "environment raw = Some e \<Longrightarrow> prepQuery raw = Inr q
     \<Longrightarrow> environment q = Some e \<or> (e = [] \<and> q = emptyQuery)"
  by (auto simp: prepQuery_def paramToArray_def querySchema_validateAsync_def validateList_def
      Let_def split: sum.splits param.splits if_splits)

section \<open>Facts about the example requests\<close>

lemma listRequest_query: "resolveQuery exampleDeps (listRequest v) = Inr emptyQuery"
  by (cases v)
    (simp_all add: resolveQuery_def listRequest_def exampleRequest_def exampleDeps_def
      noFilters_def prepQuery_def)

lemma firstList_value:
  "firstList =
     (Inr (),
      \<lparr>statusCode = 200, resHeaders = [''ETag'' \<mapsto> etagOf ''5d41402a'' 1],
       body = Some (ClientFeaturesSchema 2 [exampleFeature ''old''] emptyQuery
                      (Some [''segment''])
                      \<lparr>revisionId = 1, etag = etagOf ''5d41402a'' 1,
                       queryHash = ''5d41402a''\<rparr>),
       ended = True\<rparr>,
      \<lparr>cache = [etagOf ''5d41402a'' 1 \<mapsto> (0, [exampleFeature ''old''], [''segment''])],
       calls = [GetMaxRevisionId, GetClientFeatures emptyQuery, GetActive]\<rparr>)"
proof -
  have i: "headers (listRequest None) ''if-none-match'' = None"
    by (simp add: listRequest_def exampleRequest_def)
  have c: "requestSupportsSpec exampleDeps (listRequest None) ''segments''"
    by (simp add: listRequest_def exampleRequest_def exampleDeps_def)
  have h: "hashSum exampleDeps emptyQuery = ''5d41402a''" by (simp add: exampleDeps_def)
  have r: "getMaxRevisionId (exampleServices [''old''] 1) = Inr 1"
    by (simp add: exampleServices_def)
  show ?thesis
    unfolding firstList_def getAll_def listRequest_query calculateMeta_ok[OF r] h
    by (simp add: i c h featuresAndSegments_def memoizee_def memoizeeMiss_def exampleCaching_def
        resolveFeaturesAndSegments_def exampleServices_def emptyState_def freshResponse_def
        setHeader_def respondWithValidation_def version_def)
qed

lemma secondList_value:
  "body (fst (snd secondList)) =
     Some (ClientFeaturesSchema 2 [exampleFeature ''new''] emptyQuery (Some [''segment''])
             \<lparr>revisionId = 2, etag = etagOf ''5d41402a'' 2, queryHash = ''5d41402a''\<rparr>)
   \<and> calls (snd (snd secondList)) =
       [GetMaxRevisionId, GetClientFeatures emptyQuery, GetActive,
        GetMaxRevisionId, GetClientFeatures emptyQuery, GetActive]"
proof -
  have i: "headers (listRequest None) ''if-none-match'' = None"
    by (simp add: listRequest_def exampleRequest_def)
  have c: "requestSupportsSpec exampleDeps (listRequest None) ''segments''"
    by (simp add: listRequest_def exampleRequest_def exampleDeps_def)
  have h: "hashSum exampleDeps emptyQuery = ''5d41402a''" by (simp add: exampleDeps_def)
  have r: "getMaxRevisionId (exampleServices [''new''] 2) = Inr 2"
    by (simp add: exampleServices_def)
  show ?thesis
    unfolding secondList_def getAll_def listRequest_query calculateMeta_ok[OF r] h firstList_value
    by (simp add: i c h featuresAndSegments_def memoizee_def memoizeeMiss_def exampleCaching_def
        resolveFeaturesAndSegments_def exampleServices_def freshResponse_def
        setHeader_def respondWithValidation_def version_def etagOf_inj)
qed

lemma toggleRequest_query:
  "resolveQuery exampleDeps (toggleRequest n)
     = Inr \<lparr>tag = None, project = None, namePrefix = Some ''other'', environment = None,
            inlineSegmentConstraints = Some False\<rparr>"
  by (simp add: resolveQuery_def toggleRequest_def exampleRequest_def exampleDeps_def
      noFilters_def prepQuery_def paramToArray_def
      querySchema_validateAsync_def validateList_def)

lemma toggleRequest_name: "featureName (params (toggleRequest n)) = n"
  by (simp add: toggleRequest_def exampleRequest_def)

lemma toggleResult_split:
  "getFeatureToggle exampleDeps (exampleServices [''ab'', ''a''] 1) (toggleRequest n)
     freshResponse emptyState
   = (fst (toggleResult n), fst (snd (toggleResult n)), snd (snd (toggleResult n)))"
  by (simp add: toggleResult_def)

section \<open>The claims\<close>

text \<open>
  C1. The memoised resolver's cache is keyed on the validator it is given as second
  argument, which holds the fingerprint and the revision: after a call at time \<open>t1\<close>
  has filled the entry for fingerprint \<open>h\<close> and revision \<open>r1\<close>, a call within the
  time-to-live window with the same fingerprint and the same revision returns that
  entry and leaves the state as it is, whichever query and store it is given; a call
  with the same fingerprint and another revision does not see that entry: when no
  entry exists under its own key it resolves against the store again.
\<close>

theorem featuresAndSegments_keyed_on_etag:
  assumes en: "enabled cfg"
    and fresh: "cache st (etagOf h r1) = None"
    and first: "featuresAndSegments cfg svc1 t1 (q1, etagOf h r1) st = (Inr v, st1)"
    and win: "t1 \<le> t2" "t2 < t1 + maxAge cfg"
  shows "(r2 = r1 \<longrightarrow> featuresAndSegments cfg svc2 t2 (q2, etagOf h r2) st1 = (Inr v, st1))
       \<and> (r2 \<noteq> r1 \<longrightarrow> cache st (etagOf h r2) = None \<longrightarrow>
            fst (featuresAndSegments cfg svc2 t2 (q2, etagOf h r2) st1)
              = fst (resolveFeaturesAndSegments svc2 q2 st1)
          \<and> calls (snd (featuresAndSegments cfg svc2 t2 (q2, etagOf h r2) st1))
              = calls st1 @ [GetClientFeatures q2, GetActive])"
proof -
  obtain r st0 where r: "resolveFeaturesAndSegments svc1 q1 st = (r, st0)"
    by (cases "resolveFeaturesAndSegments svc1 q1 st")
  have c0: "cache st0 = cache st" using resolve_cache[of svc1 q1 st] r by simp
  from first en fresh r have st1: "st1 = st0\<lparr>cache := (cache st0)(etagOf h r1 \<mapsto> (t1, v))\<rparr>"
    by (auto simp: featuresAndSegments_def memoizee_def memoizeeMiss_def Let_def
        split: sum.splits)
  have entry: "cache st1 (etagOf h r1) = Some (t1, v)" using st1 by simp
  have same: "featuresAndSegments cfg svc2 t2 (q2, etagOf h r1) st1 = (Inr v, st1)"
    using en entry win(2) by (simp add: featuresAndSegments_def memoizee_def)
  have other: "fst (featuresAndSegments cfg svc2 t2 (q2, etagOf h r2) st1)
              = fst (resolveFeaturesAndSegments svc2 q2 st1)
          \<and> calls (snd (featuresAndSegments cfg svc2 t2 (q2, etagOf h r2) st1))
              = calls st1 @ [GetClientFeatures q2, GetActive]"
    if ne: "r2 \<noteq> r1" and f2: "cache st (etagOf h r2) = None"
  proof -
    from ne have k: "etagOf h r2 \<noteq> etagOf h r1" by (simp add: etagOf_inj)
    with st1 c0 f2 have none: "cache st1 (etagOf h r2) = None" by simp
    obtain r' st2 where r': "resolveFeaturesAndSegments svc2 q2 st1 = (r', st2)"
      by (cases "resolveFeaturesAndSegments svc2 q2 st1")
    have cl: "calls st2 = calls st1 @ [GetClientFeatures q2, GetActive]"
      using resolve_calls[of svc2 q2 st1] r' by simp
    from en none r' cl show ?thesis
      by (auto simp: featuresAndSegments_def memoizee_def memoizeeMiss_def Let_def
          split: sum.splits)
  qed
  from same other show ?thesis by blast
qed

theorem featuresAndSegments_keyed_on_etag_witness:
  "enabled exampleCaching
   \<and> cache emptyState (etagOf ''5d41402a'' 1) = None
   \<and> cache emptyState (etagOf ''5d41402a'' 2) = None
   \<and> firstCall = (Inr ([exampleFeature ''old''], [''segment'']), snd firstCall)
   \<and> (0::nat) \<le> 1 \<and> (1::nat) < 0 + maxAge exampleCaching
   \<and> secondCall 1 = (Inr ([exampleFeature ''old''], [''segment'']), snd firstCall)
   \<and> fst (secondCall 2)
       = fst (resolveFeaturesAndSegments (exampleServices [''new''] 2) emptyQuery (snd firstCall))
   \<and> calls (snd (secondCall 2))
       = calls (snd firstCall) @ [GetClientFeatures emptyQuery, GetActive]"
proof -
  have h1: "enabled exampleCaching" by (simp add: exampleCaching_def)
  have h2: "cache emptyState (etagOf ''5d41402a'' 1) = None" by (simp add: emptyState_def)
  have h2': "cache emptyState (etagOf ''5d41402a'' 2) = None" by (simp add: emptyState_def)
  have h3: "featuresAndSegments exampleCaching (exampleServices [''old''] 1) 0
              (emptyQuery, etagOf ''5d41402a'' 1) emptyState
            = (Inr ([exampleFeature ''old''], [''segment'']), snd firstCall)"
    using firstCall_value by (simp add: firstCall_def)
  have h4: "(0::nat) \<le> 1" by simp
  have h5: "(1::nat) < 0 + maxAge exampleCaching" by (simp add: exampleCaching_def)
  note t = featuresAndSegments_keyed_on_etag[OF h1 h2 h3 h4 h5]
  from t[of 1 "exampleServices [''new''] 1" emptyQuery]
  have a: "secondCall 1 = (Inr ([exampleFeature ''old''], [''segment'']), snd firstCall)"
    by (simp add: secondCall_def)
  from t[of 2 "exampleServices [''new''] 2" emptyQuery] h2'
  have b: "fst (secondCall 2)
       = fst (resolveFeaturesAndSegments (exampleServices [''new''] 2) emptyQuery (snd firstCall))
   \<and> calls (snd (secondCall 2))
       = calls (snd firstCall) @ [GetClientFeatures emptyQuery, GetActive]"
    by (simp add: secondCall_def)
  from h1 h2 h2' h3 h4 h5 a b show ?thesis by (simp add: firstCall_def)
qed

text \<open>
  With the fingerprint as the only key the second call below, made one millisecond
  after the first for the same query, would return the features of the first call
  without calling the store. It returns the store's new features, and the store is
  called a second time. The same holds for two list requests served by \<open>getAll\<close>:
  the body of the second one holds the new features.
\<close>

theorem fingerprint_key_counterexample:
  "fst firstCall = Inr ([exampleFeature ''old''], [''segment''])
   \<and> fst (secondCall 2) = Inr ([exampleFeature ''new''], [''segment''])
   \<and> fst (secondCall 2) \<noteq> fst firstCall
   \<and> calls (snd (secondCall 2))
       = [GetClientFeatures emptyQuery, GetActive, GetClientFeatures emptyQuery, GetActive]
   \<and> body (fst (snd secondList))
       = Some (ClientFeaturesSchema 2 [exampleFeature ''new''] emptyQuery (Some [''segment''])
                 \<lparr>revisionId = 2, etag = etagOf ''5d41402a'' 2, queryHash = ''5d41402a''\<rparr>)
   \<and> calls (snd (snd secondList))
       = [GetMaxRevisionId, GetClientFeatures emptyQuery, GetActive,
          GetMaxRevisionId, GetClientFeatures emptyQuery, GetActive]"
proof -
  have "fst firstCall = Inr ([exampleFeature ''old''], [''segment''])
   \<and> fst (secondCall 2) = Inr ([exampleFeature ''new''], [''segment''])
   \<and> fst (secondCall 2) \<noteq> fst firstCall
   \<and> calls (snd (secondCall 2))
       = [GetClientFeatures emptyQuery, GetActive, GetClientFeatures emptyQuery, GetActive]"
    by (simp add: secondCall_def firstCall_value featuresAndSegments_def memoizee_def
        memoizeeMiss_def exampleCaching_def resolveFeaturesAndSegments_def
        exampleServices_def etagOf_inj exampleFeature_def)
  with secondList_value show ?thesis by blast
qed

text \<open>
  C2. With caching enabled, when calls of the memoised resolver with one key (the same
  fingerprint and the same revision) are all started before any of them is settled,
  and no live entry exists under the key when the first one starts, the two store
  calls are issued once, for the first call, and every caller holds the same promise;
  so all of them receive the one result it is settled with, which is the pair of the
  store's answers or the rejection. The number of calls is one plus the length of
  \<open>cs\<close>, so this holds for every number of calls from two on.
\<close>

theorem concurrent_calls_deduplicated:
  assumes en: "enabled cfg"
    and none: "liveEntry (maxAge cfg) now st key = None"
    and run: "startAll cfg ((now, q) # cs) key st = (ps, st')"
  shows "issued st' = issued st @ [GetClientFeatures q, GetActive]
       \<and> ps = replicate (Suc (length cs)) (nextPromise st)
       \<and> promises st' (nextPromise st) = Some (Pending q)
       \<and> promises (settle svc t (nextPromise st) st') (nextPromise st)
           = Some (case promiseAll (getClientFeatures svc q) (getActive svc) of
                     Inl e \<Rightarrow> Rejected e | Inr v \<Rightarrow> Fulfilled t v)"
proof -
  let ?p = "nextPromise st"
  let ?st1 = "st\<lparr>promises := (promises st)(?p \<mapsto> Pending q), nextPromise := ?p + 1,
                 issued := issued st @ [GetClientFeatures q, GetActive],
                 promiseCache := (promiseCache st)(key \<mapsto> ?p)\<rparr>"
  from en none have first: "startFeaturesAndSegments cfg now (q, key) st = (?p, ?st1)"
    by (simp add: startFeaturesAndSegments_def memoizeeStart_def
        startResolveFeaturesAndSegments_def Let_def)
  have rest: "startAll cfg cs key ?st1 = (replicate (length cs) ?p, ?st1)"
    by (rule startAll_pending[OF en, where ?q0.0 = q]) simp_all
  from run first rest have ps: "ps = replicate (Suc (length cs)) ?p" and st': "st' = ?st1"
    by simp_all
  have s: "promises (settle svc t ?p ?st1) ?p
       = Some (case promiseAll (getClientFeatures svc q) (getActive svc) of
                 Inl e \<Rightarrow> Rejected e | Inr v \<Rightarrow> Fulfilled t v)"
    by (simp add: settle_def split: sum.splits)
  from ps st' s show ?thesis by simp
qed

theorem concurrent_calls_deduplicated_witness:
  "enabled exampleCaching
   \<and> liveEntry (maxAge exampleCaching) 0 emptyPending (etagOf ''5d41402a'' 1) = None
   \<and> fst threeCalls = [0, 0, 0]
   \<and> issued (snd threeCalls) = [GetClientFeatures emptyQuery, GetActive]
   \<and> promises (snd threeCalls) 0 = Some (Pending emptyQuery)
   \<and> promises (settle (exampleServices [''a''] 1) 3 0 (snd threeCalls)) 0
       = Some (Fulfilled 3 ([exampleFeature ''a''], [''segment'']))"
proof -
  have h1: "enabled exampleCaching" by (simp add: exampleCaching_def)
  have h2: "liveEntry (maxAge exampleCaching) 0 emptyPending (etagOf ''5d41402a'' 1) = None"
    by (simp add: liveEntry_def emptyPending_def)
  have h3: "startAll exampleCaching ((0, emptyQuery) # [(1, emptyQuery), (2, emptyQuery)])
              (etagOf ''5d41402a'' 1) emptyPending = (fst threeCalls, snd threeCalls)"
    by (simp add: threeCalls_def)
  have n: "nextPromise emptyPending = 0" and i: "issued emptyPending = []"
    by (simp_all add: emptyPending_def)
  have r: "promiseAll (getClientFeatures (exampleServices [''a''] 1) emptyQuery)
             (getActive (exampleServices [''a''] 1))
           = Inr ([exampleFeature ''a''], [''segment''])"
    by (simp add: promiseAll_def exampleServices_def)
  from concurrent_calls_deduplicated[OF h1 h2 h3, of "exampleServices [''a''] 1" 3]
  have "fst threeCalls = [0, 0, 0]
   \<and> issued (snd threeCalls) = [GetClientFeatures emptyQuery, GetActive]
   \<and> promises (snd threeCalls) 0 = Some (Pending emptyQuery)
   \<and> promises (settle (exampleServices [''a''] 1) 3 0 (snd threeCalls)) 0
       = Some (Fulfilled 3 ([exampleFeature ''a''], [''segment'']))"
    by (simp add: n i r numeral_3_eq_3)
  with h1 h2 show ?thesis by blast
qed

text \<open>
  C3. For a request to the list endpoint whose query normalises to \<open>q\<close> while the
  revision service answers \<open>r\<close>, the response carries the validator computed from
  \<open>q\<close> and \<open>r\<close> in its \<^verbatim>\<open>ETag\<close> header on every path, and its status is 304
  exactly when the \<^verbatim>\<open>if-none-match\<close> header of the request is that very string.
  A 304 response has no body and is finished, and the resolver has not been invoked:
  the cache is unchanged and the only collaborator called is the revision service.
\<close>

theorem getAll_conditional:
  assumes q: "resolveQuery d req = Inr q"
    and r: "getMaxRevisionId svc = Inr r"
    and s: "statusCode res \<noteq> 304"
    and b: "body res = None"
    and g: "getAll d cfg svc now req res st = (out, res', st')"
  shows "resHeaders res' ''ETag'' = Some (etagOf (hashSum d q) r)
       \<and> (statusCode res' = 304
            \<longleftrightarrow> headers req ''if-none-match'' = Some (etagOf (hashSum d q) r))
       \<and> (statusCode res' = 304 \<longrightarrow>
            out = Inr () \<and> body res' = None \<and> ended res' \<and> cache st' = cache st
            \<and> calls st' = calls st @ [GetMaxRevisionId])"
proof (cases "headers req ''if-none-match'' = Some (etagOf (hashSum d q) r)")
  case True
  with q r g s b show ?thesis
    by (auto simp: getAll_def calculateMeta_ok setHeader_def Let_def)
next
  case False
  obtain x st2 where x:
    "featuresAndSegments cfg svc now (q, etagOf (hashSum d q) r)
       (st\<lparr>calls := calls st @ [GetMaxRevisionId]\<rparr>) = (x, st2)"
    by (cases "featuresAndSegments cfg svc now (q, etagOf (hashSum d q) r)
                 (st\<lparr>calls := calls st @ [GetMaxRevisionId]\<rparr>)")
  from False have ne: "Some (etagOf (hashSum d q) r) \<noteq> headers req ''if-none-match''"
    by auto
  from q r g s b ne x show ?thesis
    by (auto simp: getAll_def calculateMeta_ok setHeader_def Let_def respondWithValidation_def
        split: sum.splits if_splits)
qed

theorem getAll_conditional_witness:
  "resolveQuery exampleDeps (listRequest (Some (etagOf ''5d41402a'' 1))) = Inr emptyQuery
   \<and> resolveQuery exampleDeps (listRequest None) = Inr emptyQuery
   \<and> getMaxRevisionId (exampleServices [''a''] 1) = Inr 1
   \<and> statusCode freshResponse \<noteq> 304
   \<and> body freshResponse = None
   \<and> resHeaders (fst (snd (listResult (Some (etagOf ''5d41402a'' 1))))) ''ETag''
       = Some (etagOf ''5d41402a'' 1)
   \<and> statusCode (fst (snd (listResult (Some (etagOf ''5d41402a'' 1))))) = 304
   \<and> body (fst (snd (listResult (Some (etagOf ''5d41402a'' 1))))) = None
   \<and> calls (snd (snd (listResult (Some (etagOf ''5d41402a'' 1))))) = [GetMaxRevisionId]
   \<and> resHeaders (fst (snd (listResult None))) ''ETag'' = Some (etagOf ''5d41402a'' 1)
   \<and> statusCode (fst (snd (listResult None))) \<noteq> 304"
proof -
  let ?e = "etagOf ''5d41402a'' 1"
  have h1: "resolveQuery exampleDeps (listRequest (Some ?e)) = Inr emptyQuery"
    by (rule listRequest_query)
  have h1': "resolveQuery exampleDeps (listRequest None) = Inr emptyQuery"
    by (rule listRequest_query)
  have h2: "getMaxRevisionId (exampleServices [''a''] 1) = Inr 1"
    by (simp add: exampleServices_def)
  have h3: "statusCode freshResponse \<noteq> 304" by (simp add: freshResponse_def)
  have h4: "body freshResponse = None" by (simp add: freshResponse_def)
  have h5: "getAll exampleDeps exampleCaching (exampleServices [''a''] 1) 5 (listRequest v)
              freshResponse emptyState
            = (fst (listResult v), fst (snd (listResult v)), snd (snd (listResult v)))" for v
    by (simp add: listResult_def)
  have hh: "hashSum exampleDeps emptyQuery = ''5d41402a''" by (simp add: exampleDeps_def)
  have i1: "headers (listRequest (Some ?e)) ''if-none-match'' = Some ?e"
    by (simp add: listRequest_def exampleRequest_def)
  have i2: "headers (listRequest None) ''if-none-match'' = None"
    by (simp add: listRequest_def exampleRequest_def)
  have c: "calls emptyState = []" by (simp add: emptyState_def)
  from getAll_conditional[OF h1 h2 h3 h4 h5] i1 c
  have a: "resHeaders (fst (snd (listResult (Some ?e)))) ''ETag'' = Some ?e
      \<and> statusCode (fst (snd (listResult (Some ?e)))) = 304
      \<and> body (fst (snd (listResult (Some ?e)))) = None
      \<and> calls (snd (snd (listResult (Some ?e)))) = [GetMaxRevisionId]"
    by (simp add: hh)
  from getAll_conditional[OF h1' h2 h3 h4 h5] i2
  have b: "resHeaders (fst (snd (listResult None))) ''ETag'' = Some ?e
      \<and> statusCode (fst (snd (listResult None))) \<noteq> 304"
    by (simp add: hh)
  from h1 h1' h2 h3 h4 a b show ?thesis by blast
qed

text \<open>
  C4. The validator that \<^verbatim>\<open>calculateMeta\<close> computes is the double-quoted string of
  the query's fingerprint, a colon and the decimal revision number read from the
  revision service. Two validators are equal exactly when the fingerprints are equal
  and the revisions are equal; so for one query, validators computed at two different
  revisions differ.
\<close>

theorem calculateMeta_validator:
  assumes "getMaxRevisionId svc1 = Inr r1" and "getMaxRevisionId svc2 = Inr r2"
  shows "\<exists>m1 m2. fst (calculateMeta d svc1 q1 st1) = Inr m1
           \<and> fst (calculateMeta d svc2 q2 st2) = Inr m2
           \<and> etag m1 = CHR 0x22 # hashSum d q1 @ CHR '':'' # string_of_int r1 @ [CHR 0x22]
           \<and> etag m2 = CHR 0x22 # hashSum d q2 @ CHR '':'' # string_of_int r2 @ [CHR 0x22]
           \<and> (etag m1 = etag m2 \<longleftrightarrow> hashSum d q1 = hashSum d q2 \<and> r1 = r2)
           \<and> (q1 = q2 \<longrightarrow> r1 \<noteq> r2 \<longrightarrow> etag m1 \<noteq> etag m2)"
proof -
  let ?m1 = "\<lparr>revisionId = r1, etag = etagOf (hashSum d q1) r1, queryHash = hashSum d q1\<rparr>"
  let ?m2 = "\<lparr>revisionId = r2, etag = etagOf (hashSum d q2) r2, queryHash = hashSum d q2\<rparr>"
  have 1: "fst (calculateMeta d svc1 q1 st1) = Inr ?m1"
    using assms(1) by (simp add: calculateMeta_ok)
  have 2: "fst (calculateMeta d svc2 q2 st2) = Inr ?m2"
    using assms(2) by (simp add: calculateMeta_ok)
  have 3: "etag ?m1 = CHR 0x22 # hashSum d q1 @ CHR '':'' # string_of_int r1 @ [CHR 0x22]"
    by (simp add: etagOf_def)
  have 4: "etag ?m2 = CHR 0x22 # hashSum d q2 @ CHR '':'' # string_of_int r2 @ [CHR 0x22]"
    by (simp add: etagOf_def)
  have 5: "etag ?m1 = etag ?m2 \<longleftrightarrow> hashSum d q1 = hashSum d q2 \<and> r1 = r2"
    by (simp add: etagOf_inj)
  have 6: "q1 = q2 \<longrightarrow> r1 \<noteq> r2 \<longrightarrow> etag ?m1 \<noteq> etag ?m2"
    by (simp add: etagOf_inj)
  from 1 2 3 4 5 6 show ?thesis by blast
qed

theorem calculateMeta_validator_witness:
  "getMaxRevisionId (exampleServices [] 7) = Inr 7
   \<and> getMaxRevisionId (exampleServices [] 8) = Inr 8
   \<and> (\<exists>m1 m2. fst (calculateMeta exampleDeps (exampleServices [] 7) emptyQuery emptyState)
                 = Inr m1
        \<and> fst (calculateMeta exampleDeps (exampleServices [] 8) emptyQuery emptyState) = Inr m2
        \<and> etag m1 = CHR 0x22 # ''5d41402a:7'' @ [CHR 0x22]
        \<and> etag m2 = CHR 0x22 # ''5d41402a:8'' @ [CHR 0x22]
        \<and> etag m1 \<noteq> etag m2)"
proof -
  have h1: "getMaxRevisionId (exampleServices [] 7) = Inr 7"
    by (simp add: exampleServices_def)
  have h2: "getMaxRevisionId (exampleServices [] 8) = Inr 8"
    by (simp add: exampleServices_def)
  have s7: "string_of_int 7 = ''7''" by (simp add: string_of_int_digit digit_def)
  have s8: "string_of_int 8 = ''8''" by (simp add: string_of_int_digit digit_def)
  have h: "hashSum exampleDeps emptyQuery = ''5d41402a''" by (simp add: exampleDeps_def)
  from calculateMeta_validator[OF h1 h2, of exampleDeps emptyQuery emptyState emptyQuery emptyState]
  obtain m1 m2 where
    "fst (calculateMeta exampleDeps (exampleServices [] 7) emptyQuery emptyState) = Inr m1"
    "fst (calculateMeta exampleDeps (exampleServices [] 8) emptyQuery emptyState) = Inr m2"
    "etag m1 = CHR 0x22 # ''5d41402a:7'' @ [CHR 0x22]"
    "etag m2 = CHR 0x22 # ''5d41402a:8'' @ [CHR 0x22]"
    "etag m1 \<noteq> etag m2"
    unfolding s7 s8 h by auto
  with h1 h2 show ?thesis by blast
qed

text \<open>
  C5. Two raw queries that differ only in that a tag filter, a project filter or both
  are given as one non-empty string in the one and as the list of that one string in
  the other normalise to the same outcome, so to the same descriptor and the same
  fingerprint. A list-valued filter keeps the order the request gave it: the project
  list of the descriptor is the list of the request, and its tag list is the request's
  with every tag split at its colons. Nothing is sorted.
\<close>

theorem prepQuery_representation:
  assumes s: "s \<noteq> []" and t: "t \<noteq> []"
  shows "prepQuery (r\<lparr>tag := Str s\<rparr>) = prepQuery (r\<lparr>tag := Arr [s]\<rparr>)
       \<and> prepQuery (r\<lparr>project := Str t\<rparr>) = prepQuery (r\<lparr>project := Arr [t]\<rparr>)
       \<and> prepQuery (r\<lparr>tag := Str s, project := Str t\<rparr>)
           = prepQuery (r\<lparr>tag := Arr [s], project := Arr [t]\<rparr>)
       \<and> map_sum id (hashSum d) (prepQuery (r\<lparr>tag := Str s, project := Str t\<rparr>))
           = map_sum id (hashSum d) (prepQuery (r\<lparr>tag := Arr [s], project := Arr [t]\<rparr>))
       \<and> (\<forall>ps q. project r = Arr ps \<longrightarrow> prepQuery r = Inr q \<longrightarrow> project q = Some ps)
       \<and> (\<forall>ts q. tag r = Arr ts \<longrightarrow> prepQuery r = Inr q
            \<longrightarrow> tag q = Some (map (split CHR '':'') ts))"
proof -
  have a: "prepQuery (r\<lparr>tag := Str s\<rparr>) = prepQuery (r\<lparr>tag := Arr [s]\<rparr>)"
    using s by (simp add: prepQuery_def paramToArray_def)
  have b: "prepQuery (r\<lparr>project := Str t\<rparr>) = prepQuery (r\<lparr>project := Arr [t]\<rparr>)"
    using t by (simp add: prepQuery_def paramToArray_def)
  have c: "prepQuery (r\<lparr>tag := Str s, project := Str t\<rparr>)
           = prepQuery (r\<lparr>tag := Arr [s], project := Arr [t]\<rparr>)"
    using s t by (simp add: prepQuery_def paramToArray_def)
  from a b c prepQuery_project prepQuery_tag show ?thesis by auto
qed

theorem prepQuery_representation_witness:
  "''colour:red'' \<noteq> [] \<and> ''A'' \<noteq> []
   \<and> prepQuery \<lparr>tag = Str ''colour:red'', project = Str ''A'', namePrefix = None,
                 environment = None, inlineSegmentConstraints = False\<rparr>
      = prepQuery \<lparr>tag = Arr [''colour:red''], project = Arr [''A''], namePrefix = None,
                   environment = None, inlineSegmentConstraints = False\<rparr>
   \<and> prepQuery \<lparr>tag = Arr [''colour:red''], project = Arr [''A''], namePrefix = None,
                 environment = None, inlineSegmentConstraints = False\<rparr>
      = Inr \<lparr>tag = Some [[''colour'', ''red'']], project = Some [''A''], namePrefix = None,
             environment = None, inlineSegmentConstraints = Some False\<rparr>"
proof -
  let ?r = "\<lparr>tag = Absent, project = Absent, namePrefix = None, environment = None,
             inlineSegmentConstraints = False\<rparr> :: rawQuery"
  have h1: "''colour:red'' \<noteq> []" by simp
  have h2: "''A'' \<noteq> []" by simp
  have v: "prepQuery \<lparr>tag = Arr [''colour:red''], project = Arr [''A''], namePrefix = None,
                      environment = None, inlineSegmentConstraints = False\<rparr>
      = Inr \<lparr>tag = Some [[''colour'', ''red'']], project = Some [''A''], namePrefix = None,
             environment = None, inlineSegmentConstraints = Some False\<rparr>"
    by (simp add: prepQuery_def paramToArray_def querySchema_validateAsync_def
        validateList_def)
  from prepQuery_representation[OF h1 h2, where r = ?r and d = exampleDeps]
  have "prepQuery \<lparr>tag = Str ''colour:red'', project = Str ''A'', namePrefix = None,
                 environment = None, inlineSegmentConstraints = False\<rparr>
      = prepQuery \<lparr>tag = Arr [''colour:red''], project = Arr [''A''], namePrefix = None,
                   environment = None, inlineSegmentConstraints = False\<rparr>"
    by simp
  with h1 h2 v show ?thesis by blast
qed

text \<open>
  The same two projects listed in the two orders give two different descriptors.
\<close>

theorem prepQuery_order_counterexample:
  "prepQuery \<lparr>tag = Absent, project = Arr [''A'', ''B''], namePrefix = None,
              environment = None, inlineSegmentConstraints = False\<rparr>
     = Inr \<lparr>tag = None, project = Some [''A'', ''B''], namePrefix = None,
            environment = None, inlineSegmentConstraints = Some False\<rparr>
   \<and> prepQuery \<lparr>tag = Absent, project = Arr [''B'', ''A''], namePrefix = None,
                 environment = None, inlineSegmentConstraints = False\<rparr>
     = Inr \<lparr>tag = None, project = Some [''B'', ''A''], namePrefix = None,
            environment = None, inlineSegmentConstraints = Some False\<rparr>
   \<and> prepQuery \<lparr>tag = Absent, project = Arr [''A'', ''B''], namePrefix = None,
                 environment = None, inlineSegmentConstraints = False\<rparr>
     \<noteq> prepQuery \<lparr>tag = Absent, project = Arr [''B'', ''A''], namePrefix = None,
                   environment = None, inlineSegmentConstraints = False\<rparr>"
  by (simp add: prepQuery_def paramToArray_def querySchema_validateAsync_def validateList_def)

text \<open>
  C6. A raw query in which the tag, project, name-prefix and environment filters are
  each absent or the empty string, and whose \<^verbatim>\<open>inlineSegmentConstraints\<close> flag is
  false, normalises to the one empty-query value \<^verbatim>\<open>{}\<close>; every such request has the
  fingerprint of that value.
\<close>

theorem prepQuery_empty_query:
  assumes "tag raw = Absent \<or> tag raw = Str []"
    and "project raw = Absent \<or> project raw = Str []"
    and "namePrefix raw = None \<or> namePrefix raw = Some []"
    and "environment raw = None \<or> environment raw = Some []"
    and "\<not> inlineSegmentConstraints raw"
  shows "prepQuery raw = Inr emptyQuery
       \<and> map_sum id (hashSum d) (prepQuery raw) = Inr (hashSum d emptyQuery)"
proof -
  from assms have "\<not> truthy (tag raw)" "\<not> truthy (project raw)"
    "\<not> truthyString (namePrefix raw)" "\<not> truthyString (environment raw)"
    by auto
  with assms(5) have "prepQuery raw = Inr emptyQuery" by (simp add: prepQuery_def)
  then show ?thesis by simp
qed

theorem prepQuery_empty_query_witness:
  "prepQuery \<lparr>tag = Absent, project = Str [], namePrefix = Some [], environment = None,
              inlineSegmentConstraints = False\<rparr> = Inr emptyQuery
   \<and> map_sum id (hashSum exampleDeps)
        (prepQuery \<lparr>tag = Absent, project = Str [], namePrefix = Some [], environment = None,
                    inlineSegmentConstraints = False\<rparr>) = Inr ''5d41402a''"
proof -
  let ?r = "\<lparr>tag = Absent, project = Str [], namePrefix = Some [], environment = None,
              inlineSegmentConstraints = False\<rparr>"
  have h1: "tag ?r = Absent \<or> tag ?r = Str []" by simp
  have h2: "project ?r = Absent \<or> project ?r = Str []" by simp
  have h3: "namePrefix ?r = None \<or> namePrefix ?r = Some []" by simp
  have h4: "environment ?r = None \<or> environment ?r = Some []" by simp
  have h5: "\<not> inlineSegmentConstraints ?r" by simp
  have h: "hashSum exampleDeps emptyQuery = ''5d41402a''" by (simp add: exampleDeps_def)
  from prepQuery_empty_query[OF h1 h2 h3 h4 h5, of exampleDeps] h show ?thesis by simp
qed

text \<open>
  Without filters but with \<^verbatim>\<open>inlineSegmentConstraints\<close> set, as for a client that
  does not declare the segments capability, normalisation goes through validation and
  returns a descriptor that holds the flag, not the empty-query value.
\<close>

theorem prepQuery_empty_query_counterexample:
  "prepQuery \<lparr>tag = Absent, project = Absent, namePrefix = None, environment = None,
              inlineSegmentConstraints = True\<rparr>
     = Inr \<lparr>tag = None, project = None, namePrefix = None, environment = None,
            inlineSegmentConstraints = Some True\<rparr>
   \<and> prepQuery \<lparr>tag = Absent, project = Absent, namePrefix = None, environment = None,
                 inlineSegmentConstraints = True\<rparr> \<noteq> Inr emptyQuery
   \<and> resolveQuery exampleDeps legacyRequest \<noteq> Inr emptyQuery"
  by (simp add: prepQuery_def paramToArray_def querySchema_validateAsync_def validateList_def
      emptyQuery_def resolveQuery_def legacyRequest_def exampleRequest_def exampleDeps_def
      noFilters_def)

text \<open>
  C7. When the caller is an API user and normalisation succeeds: if the user's projects
  are not the all-projects sentinel, the descriptor's project filter is the user's
  project list, whatever project filter the client supplied; if the user's environment
  is an environment name (a non-empty string other than the all-environments
  sentinel), the descriptor's environment is that name, whatever the client supplied.
  (Were the user's environment the empty string, it would still replace the client's:
  the descriptor then holds the empty string or is the empty query.)
\<close>

theorem resolveQuery_override:
  assumes u: "user req = ApiUser ps env" and q: "resolveQuery d req = Inr q"
  shows "(\<not> isAllProjects d ps \<longrightarrow> project q = Some ps)
       \<and> (env \<noteq> ALL_sentinel d \<longrightarrow> env \<noteq> [] \<longrightarrow> environment q = Some env)
       \<and> (env \<noteq> ALL_sentinel d \<longrightarrow>
            environment q = Some env \<or> (env = [] \<and> q = emptyQuery))"
proof -
  let ?o = "\<lparr>overrideProject = (if \<not> isAllProjects d ps then Some ps else None),
             overrideEnvironment = (if env \<noteq> ALL_sentinel d then Some env else None)\<rparr>"
  let ?raw = "\<lparr>tag = tag (query req),
      project = (case overrideProject ?o of
                   Some ps \<Rightarrow> Arr ps | None \<Rightarrow> project (query req)),
      namePrefix = namePrefix (query req),
      environment = (case overrideEnvironment ?o of
                       Some e \<Rightarrow> Some e | None \<Rightarrow> environment (query req)),
      inlineSegmentConstraints = \<not> requestSupportsSpec d req ''segments''\<rparr>"
  from q u have p: "prepQuery ?raw = Inr q" by (simp add: resolveQuery_def Let_def)
  have a: "project q = Some ps" if "\<not> isAllProjects d ps"
  proof -
    from that have "project ?raw = Arr ps" by simp
    then show ?thesis using p by (rule prepQuery_project)
  qed
  have b: "environment q = Some env" if "env \<noteq> ALL_sentinel d" and "env \<noteq> []"
  proof -
    from that have "environment ?raw = Some env" by simp
    then show ?thesis using that(2) p by (rule prepQuery_environment)
  qed
  have c: "environment q = Some env \<or> (env = [] \<and> q = emptyQuery)"
    if "env \<noteq> ALL_sentinel d"
  proof -
    from that have "environment ?raw = Some env" by simp
    then show ?thesis using p by (rule prepQuery_environment_any)
  qed
  from a b c show ?thesis by blast
qed

theorem resolveQuery_override_witness:
  "user restrictedRequest = ApiUser [''A'', ''B''] ''production''
   \<and> project (query restrictedRequest) = Arr [''C'']
   \<and> environment (query restrictedRequest) = Some ''development''
   \<and> resolveQuery exampleDeps restrictedRequest
       = Inr \<lparr>tag = None, project = Some [''A'', ''B''], namePrefix = None,
              environment = Some ''production'', inlineSegmentConstraints = Some True\<rparr>
   \<and> \<not> isAllProjects exampleDeps [''A'', ''B'']
   \<and> ''production'' \<noteq> ALL_sentinel exampleDeps"
proof -
  let ?q = "\<lparr>tag = None, project = Some [''A'', ''B''], namePrefix = None,
              environment = Some ''production'', inlineSegmentConstraints = Some True\<rparr>"
  have h1: "user restrictedRequest = ApiUser [''A'', ''B''] ''production''"
    by (simp add: restrictedRequest_def exampleRequest_def)
  have h2: "resolveQuery exampleDeps restrictedRequest = Inr ?q"
    by (simp add: resolveQuery_def restrictedRequest_def exampleRequest_def exampleDeps_def
        noFilters_def prepQuery_def paramToArray_def
        querySchema_validateAsync_def validateList_def)
  have h3: "\<not> isAllProjects exampleDeps [''A'', ''B'']" by (simp add: exampleDeps_def)
  have h4: "''production'' \<noteq> ALL_sentinel exampleDeps" by (simp add: exampleDeps_def)
  have c: "project (query restrictedRequest) = Arr [''C'']
     \<and> environment (query restrictedRequest) = Some ''development''"
    by (simp add: restrictedRequest_def exampleRequest_def noFilters_def)
  from resolveQuery_override[OF h1 h2] h3 h4
  have "project ?q = Some [''A'', ''B''] \<and> environment ?q = Some ''production''" by simp
  with h1 h2 h3 h4 c show ?thesis by blast
qed

text \<open>
  C8. Every invocation of \<^verbatim>\<open>resolveFeaturesAndSegments\<close> issues both store calls,
  whatever either returns. It succeeds with the pair of both results exactly when both
  calls succeed, and fails when either fails. When the memoised resolver returns a
  failure, a store call has failed and the cache holds no entry for the call's key.
\<close>

theorem resolve_all_or_nothing:
  "(fst (resolveFeaturesAndSegments svc q st) = Inr (fs, ss)
      \<longleftrightarrow> getClientFeatures svc q = Inr fs \<and> getActive svc = Inr ss)
   \<and> (isl (fst (resolveFeaturesAndSegments svc q st))
      \<longleftrightarrow> isl (getClientFeatures svc q) \<or> isl (getActive svc))
   \<and> calls (snd (resolveFeaturesAndSegments svc q st))
       = calls st @ [GetClientFeatures q, GetActive]
   \<and> (enabled cfg \<longrightarrow> fst (featuresAndSegments cfg svc now (q, e) st) = Inl err
        \<longrightarrow> (isl (getClientFeatures svc q) \<or> isl (getActive svc))
            \<and> cache (snd (featuresAndSegments cfg svc now (q, e) st)) e = None)"
proof -
  have a: "fst (resolveFeaturesAndSegments svc q st) = Inr (fs, ss)
      \<longleftrightarrow> getClientFeatures svc q = Inr fs \<and> getActive svc = Inr ss"
    by (auto simp: resolve_result split: sum.splits)
  have b: "isl (fst (resolveFeaturesAndSegments svc q st))
      \<longleftrightarrow> isl (getClientFeatures svc q) \<or> isl (getActive svc)"
    by (auto simp: resolve_result split: sum.splits)
  have c: "fst (featuresAndSegments cfg svc now (q, e) st) = Inl err
        \<longrightarrow> (isl (getClientFeatures svc q) \<or> isl (getActive svc))
            \<and> cache (snd (featuresAndSegments cfg svc now (q, e) st)) e = None"
    if en: "enabled cfg"
  proof
    assume f: "fst (featuresAndSegments cfg svc now (q, e) st) = Inl err"
    obtain r st1 where r: "resolveFeaturesAndSegments svc q st = (r, st1)"
      by (cases "resolveFeaturesAndSegments svc q st")
    have m: "featuresAndSegments cfg svc now (q, e) st
               = memoizeeMiss (\<lambda>(q, e). resolveFeaturesAndSegments svc q) e now (q, e) st"
      using f en
      by (auto simp: featuresAndSegments_def memoizee_def split: option.splits if_splits)
    from r m f have "isl r" by (auto simp: memoizeeMiss_def split: sum.splits)
    with r b have 1: "isl (getClientFeatures svc q) \<or> isl (getActive svc)" by simp
    from r m f have 2: "cache (snd (featuresAndSegments cfg svc now (q, e) st)) e = None"
      by (auto simp: memoizeeMiss_def split: sum.splits)
    from 1 2 show "(isl (getClientFeatures svc q) \<or> isl (getActive svc))
            \<and> cache (snd (featuresAndSegments cfg svc now (q, e) st)) e = None" ..
  qed
  from a b c resolve_calls show ?thesis by blast
qed

theorem resolve_all_or_nothing_witness:
  "enabled exampleCaching
   \<and> fst (featuresAndSegments exampleCaching failingServices 0 (emptyQuery, ''key'') emptyState)
       = Inl UpstreamError
   \<and> isl (getActive failingServices)
   \<and> cache (snd (featuresAndSegments exampleCaching failingServices 0 (emptyQuery, ''key'')
                   emptyState)) ''key'' = None
   \<and> calls (snd (resolveFeaturesAndSegments failingServices emptyQuery emptyState))
       = [GetClientFeatures emptyQuery, GetActive]"
proof -
  have h1: "enabled exampleCaching" by (simp add: exampleCaching_def)
  have h2: "fst (featuresAndSegments exampleCaching failingServices 0 (emptyQuery, ''key'')
                   emptyState) = Inl UpstreamError"
    by (simp add: featuresAndSegments_def memoizee_def memoizeeMiss_def exampleCaching_def
        resolveFeaturesAndSegments_def failingServices_def emptyState_def)
  have h3: "isl (getActive failingServices)" by (simp add: failingServices_def)
  have h4: "calls emptyState = []" by (simp add: emptyState_def)
  from resolve_all_or_nothing[of failingServices emptyQuery emptyState _ _ exampleCaching 0
      "''key''" UpstreamError] h1 h2 h4
  have "cache (snd (featuresAndSegments exampleCaching failingServices 0 (emptyQuery, ''key'')
                   emptyState)) ''key'' = None
      \<and> calls (snd (resolveFeaturesAndSegments failingServices emptyQuery emptyState))
       = [GetClientFeatures emptyQuery, GetActive]"
    by simp
  with h1 h2 h3 show ?thesis by blast
qed

text \<open>
  C9. For a request to the single-feature endpoint with feature name \<open>N\<close>, once the
  query is normalised and the store has returned the filtered features: the handler
  succeeds exactly when a returned feature is named \<open>N\<close>, and then responds with
  status 200 and a feature of that exact name from the store's answer; when no returned
  feature is named \<open>N\<close> it throws the not-found error and leaves the response untouched.
\<close>

theorem getFeatureToggle_lookup:
  assumes q: "resolveQuery d req = Inr fq"
    and s: "getClientFeatures svc (fq\<lparr>namePrefix := Some (featureName (params req))\<rparr>)
              = Inr toggles"
    and g: "getFeatureToggle d svc req res st = (out, res', st')"
  shows "(out = Inr () \<longleftrightarrow> (\<exists>t\<in>set toggles. name t = featureName (params req)))
       \<and> ((\<exists>t\<in>set toggles. name t = featureName (params req)) \<longrightarrow>
            statusCode res' = 200
            \<and> (\<exists>t\<in>set toggles. name t = featureName (params req)
                  \<and> body res' = Some (ClientFeatureSchema t)))
       \<and> ((\<forall>t\<in>set toggles. name t \<noteq> featureName (params req)) \<longrightarrow>
            out = Inl (NotFoundError
                         (''Could not find feature toggle '' @ featureName (params req)))
            \<and> res' = res)"
proof (cases "find (\<lambda>t. name t = featureName (params req)) toggles")
  case None
  then have n: "\<forall>t\<in>set toggles. name t \<noteq> featureName (params req)"
    by (simp add: find_None_iff)
  from None q s g have "out = Inl (NotFoundError
                         (''Could not find feature toggle '' @ featureName (params req)))
            \<and> res' = res"
    by (auto simp: getFeatureToggle_def Let_def)
  with n show ?thesis by auto
next
  case (Some t)
  then have t: "t \<in> set toggles \<and> name t = featureName (params req)"
    by (auto simp: find_Some_iff)
  from Some q s g have "out = Inr () \<and> statusCode res' = 200
      \<and> body res' = Some (ClientFeatureSchema t)"
    by (auto simp: getFeatureToggle_def Let_def respondWithValidation_def)
  with t show ?thesis by auto
qed

theorem getFeatureToggle_lookup_witness:
  "resolveQuery exampleDeps (toggleRequest ''a'')
     = Inr \<lparr>tag = None, project = None, namePrefix = Some ''other'', environment = None,
            inlineSegmentConstraints = Some False\<rparr>
   \<and> getClientFeatures (exampleServices [''ab'', ''a''] 1)
        \<lparr>tag = None, project = None, namePrefix = Some ''a'', environment = None,
         inlineSegmentConstraints = Some False\<rparr>
       = Inr [exampleFeature ''ab'', exampleFeature ''a'']
   \<and> fst (toggleResult ''a'') = Inr ()
   \<and> statusCode (fst (snd (toggleResult ''a''))) = 200
   \<and> body (fst (snd (toggleResult ''a''))) = Some (ClientFeatureSchema (exampleFeature ''a''))
   \<and> fst (toggleResult ''b'') = Inl (NotFoundError ''Could not find feature toggle b'')
   \<and> fst (snd (toggleResult ''b'')) = freshResponse"
proof -
  let ?fq = "\<lparr>tag = None, project = None, namePrefix = Some ''other'', environment = None,
            inlineSegmentConstraints = Some False\<rparr> :: featureQuery"
  let ?svc = "exampleServices [''ab'', ''a''] 1"
  have s: "getClientFeatures ?svc (?fq\<lparr>namePrefix := Some (featureName (params (toggleRequest n)))\<rparr>)
             = Inr [exampleFeature ''ab'', exampleFeature ''a'']" for n
    by (simp add: exampleServices_def)
  have s': "getClientFeatures ?svc
              \<lparr>tag = None, project = None, namePrefix = Some ''a'', environment = None,
               inlineSegmentConstraints = Some False\<rparr>
             = Inr [exampleFeature ''ab'', exampleFeature ''a'']"
    by (simp add: exampleServices_def)
  note a = getFeatureToggle_lookup[OF toggleRequest_query s toggleResult_split, of "''a''"]
  note b = getFeatureToggle_lookup[OF toggleRequest_query s toggleResult_split, of "''b''"]
  from a have 1: "fst (toggleResult ''a'') = Inr ()
      \<and> statusCode (fst (snd (toggleResult ''a''))) = 200
      \<and> body (fst (snd (toggleResult ''a''))) = Some (ClientFeatureSchema (exampleFeature ''a''))"
    by (simp add: toggleRequest_name exampleFeature_def)
  from b have 2: "fst (toggleResult ''b'') = Inl (NotFoundError ''Could not find feature toggle b'')
      \<and> fst (snd (toggleResult ''b'')) = freshResponse"
    by (simp add: toggleRequest_name exampleFeature_def)
  from toggleRequest_query[of "''a''"] s' 1 2 show ?thesis by blast
qed

text \<open>
  C10. The single-feature endpoint never touches the memoisation cache and its outcome
  and response do not depend on the controller's state; it does not set the
  \<^verbatim>\<open>ETag\<close> header and does not produce status 304; and when the query normalises,
  the one collaborator call it makes is the feature store's, with the normalised query
  whose name prefix is replaced by the requested feature name.
\<close>

theorem getFeatureToggle_direct:
  assumes g: "getFeatureToggle d svc req res st = (out, res', st')"
  shows "cache st' = cache st
       \<and> resHeaders res' ''ETag'' = resHeaders res ''ETag''
       \<and> (statusCode res \<noteq> 304 \<longrightarrow> statusCode res' \<noteq> 304)
       \<and> (\<forall>fq. resolveQuery d req = Inr fq \<longrightarrow>
             calls st' = calls st
               @ [GetClientFeatures (fq\<lparr>namePrefix := Some (featureName (params req))\<rparr>)])
       \<and> (\<forall>e. resolveQuery d req = Inl e \<longrightarrow> calls st' = calls st \<and> out = Inl e)
       \<and> fst (getFeatureToggle d svc req res st2) = out
       \<and> fst (snd (getFeatureToggle d svc req res st2)) = res'"
proof (cases "resolveQuery d req")
  case (Inl e)
  with g show ?thesis by (auto simp: getFeatureToggle_def Let_def)
next
  case (Inr fq)
  with g show ?thesis
    by (auto simp: getFeatureToggle_def Let_def respondWithValidation_def
        split: sum.splits option.splits)
qed

theorem getFeatureToggle_direct_witness:
  "resHeaders freshResponse ''ETag'' = None
   \<and> statusCode freshResponse \<noteq> 304
   \<and> cache (snd (snd (toggleResult ''a''))) = cache emptyState
   \<and> resHeaders (fst (snd (toggleResult ''a''))) ''ETag'' = None
   \<and> statusCode (fst (snd (toggleResult ''a''))) \<noteq> 304
   \<and> calls (snd (snd (toggleResult ''a'')))
       = [GetClientFeatures
            \<lparr>tag = None, project = None, namePrefix = Some ''a'', environment = None,
             inlineSegmentConstraints = Some False\<rparr>]"
proof -
  have h1: "resHeaders freshResponse ''ETag'' = None" by (simp add: freshResponse_def)
  have h2: "statusCode freshResponse \<noteq> 304" by (simp add: freshResponse_def)
  have c: "calls emptyState = []" by (simp add: emptyState_def)
  from getFeatureToggle_direct[OF toggleResult_split, of "''a''"] h1 h2 c
    toggleRequest_query[of "''a''"]
  have "cache (snd (snd (toggleResult ''a''))) = cache emptyState
   \<and> resHeaders (fst (snd (toggleResult ''a''))) ''ETag'' = None
   \<and> statusCode (fst (snd (toggleResult ''a''))) \<noteq> 304
   \<and> calls (snd (snd (toggleResult ''a'')))
       = [GetClientFeatures
            \<lparr>tag = None, project = None, namePrefix = Some ''a'', environment = None,
             inlineSegmentConstraints = Some False\<rparr>]"
    by (simp add: toggleRequest_name)
  with h1 h2 show ?thesis by blast
qed

end
